theory Spec2Isabelle
  imports Main "HOL-Library.Word" "HOL-Library.Monad_Syntax"
begin

unbundle bit_operations_syntax

section \<open>Data model of drivers/irqchip/irq-gic.c\<close>

text \<open>
  The driver is built for the 32-bit ARM ports: \<open>u32\<close>, \<open>unsigned int\<close>,
  \<open>unsigned long\<close> and \<open>virtual_addr_t\<close> are all 32 bits wide, and their arithmetic
  wraps around.
\<close>

type_synonym u32 = "32 word"
type_synonym virtual_addr_t = "32 word"

definition GIC_CPU_CTRL :: virtual_addr_t where [simp]: "GIC_CPU_CTRL = 0x00"
definition GIC_CPU_PRIMASK :: virtual_addr_t where [simp]: "GIC_CPU_PRIMASK = 0x04"
definition GIC_CPU_INTACK :: virtual_addr_t where [simp]: "GIC_CPU_INTACK = 0x0c"
definition GIC_CPU_EOI :: virtual_addr_t where [simp]: "GIC_CPU_EOI = 0x10"
definition GIC_CPU2_DIR :: virtual_addr_t where [simp]: "GIC_CPU2_DIR = 0x00"
definition GIC_DIST_CTRL :: virtual_addr_t where [simp]: "GIC_DIST_CTRL = 0x000"
definition GIC_DIST_CTR :: virtual_addr_t where [simp]: "GIC_DIST_CTR = 0x004"
definition GIC_DIST_ENABLE_SET :: virtual_addr_t where [simp]: "GIC_DIST_ENABLE_SET = 0x100"
definition GIC_DIST_ENABLE_CLEAR :: virtual_addr_t where [simp]: "GIC_DIST_ENABLE_CLEAR = 0x180"
definition GIC_DIST_PRI :: virtual_addr_t where [simp]: "GIC_DIST_PRI = 0x400"
definition GIC_DIST_TARGET :: virtual_addr_t where [simp]: "GIC_DIST_TARGET = 0x800"
definition GIC_DIST_CONFIG :: virtual_addr_t where [simp]: "GIC_DIST_CONFIG = 0xc00"

definition GIC_MAX_NR :: u32 where [simp]: "GIC_MAX_NR = 2"

definition UINT_MAX :: u32 where [simp]: "UINT_MAX = 0xFFFFFFFF"

text \<open>\<open>struct gic_chip_data\<close>.\<close>

record gic_chip_data =
  eoimode :: bool
  irq_offset :: u32
  gic_irqs :: u32
  dist_base :: virtual_addr_t
  cpu_base :: virtual_addr_t
  cpu2_base :: virtual_addr_t

text \<open>
  What the driver uses of \<open>struct vmm_host_irq\<close>: the global line number and the chip-data
  pointer. A pointer to an entry of \<open>gic_data\<close> is the index of that entry.
\<close>

record vmm_host_irq =
  num :: u32
  chip_data :: nat

definition vmm_host_irq_get_chip_data :: "vmm_host_irq \<Rightarrow> nat" where
  "vmm_host_irq_get_chip_data irq = chip_data irq"

text \<open>
  What the driver uses of \<open>struct vmm_cpumask\<close> (vmm_cpumask.h is not part of the driver):
  the first word of the bitmap, which \<open>*vmm_cpumask_bits(mask)\<close> reads, and the index
  that \<open>vmm_cpumask_first(mask)\<close> returns for it.
\<close>

record vmm_cpumask =
  vmm_cpumask_bits :: "32 word"
  vmm_cpumask_first :: u32

text \<open>
  The trigger types of vmm_host_irq.h that the driver tells apart; every other value of
  the \<open>u32 type\<close> argument is \<open>VMM_IRQ_TYPE_OTHER\<close> of that value.
\<close>

datatype vmm_irq_type =
  VMM_IRQ_TYPE_LEVEL_HIGH | VMM_IRQ_TYPE_EDGE_RISING | VMM_IRQ_TYPE_OTHER u32

datatype vmm_error = VMM_OK | VMM_EFAIL | VMM_EINVALID | VMM_ENODEV

datatype vmm_irq_return_t = VMM_IRQ_NONE | VMM_IRQ_HANDLED

datatype vmm_host_irq_chip = gic_chip

datatype vmm_host_irq_handler = vmm_handle_fast_eoi

datatype active_callback = active_callback_gic_active_irq

text \<open>
  The barriers of arch_barrier.h, by kind: \<open>arch_mb()\<close> is the full barrier, which orders
  loads and stores; \<open>arch_rmb()\<close> is the read barrier, which orders loads;
  \<open>arch_wmb()\<close> is the write barrier, which orders stores.
\<close>

datatype barrier = Mb | Rmb | Wmb

text \<open>
  What the driver does to the world outside it, in program order: a 32-bit store to a
  device register (\<open>vmm_writel(val, addr)\<close>), a barrier of the kind called, and a call of
  the host framework's dispatch entry point \<open>vmm_host_generic_irq_exec(irq)\<close>.
\<close>

datatype event = Writel u32 virtual_addr_t | Barrier barrier | Irq_exec u32

text \<open>
  What the driver uses of \<open>struct vmm_devtree_node\<close> (the device tree is not part of the
  driver): \<open>regmap n i\<close> is the address \<open>vmm_devtree_regmap(node, &addr, i)\<close> stores,
  \<open>None\<close> when the call fails; \<open>read_u32 n name\<close> is the value
  \<open>vmm_devtree_read_u32(node, name, &val)\<close> stores, \<open>None\<close> when the call fails.
\<close>

record vmm_devtree_node =
  regmap :: "nat \<Rightarrow> virtual_addr_t option"
  read_u32 :: "string \<Rightarrow> u32 option"

text \<open>
  The state the driver runs in.
  \<^item> \<open>gic_cnt\<close>, \<open>gic_data\<close>: the driver's two static variables; the table is indexed by
    the controller number, and every access is to entry 0 or guarded by
    \<open>gic_nr < GIC_MAX_NR\<close>.
  \<^item> \<open>regs\<close>: what a load from each device register returns; \<open>hw_write\<close>: how the
    hardware changes that on a store (the devices are not part of the driver, so their
    behaviour is a parameter of the state); \<open>trace\<close>: the events so far, oldest first.
  \<^item> \<open>host_*\<close>: the host interrupt framework's per-line table (chip, chip data, flow
    handler, per-CPU mark), its list of registered handlers (line, name, \<open>dev\<close> pointer;
    the driver only ever registers \<open>gic_handle_cascade_irq\<close>) and its active-interrupt
    callback.
  \<^item> \<open>CONFIG_HOST_IRQ_COUNT\<close>: the host framework's line-number capacity, a constant of the
    build; \<open>vmm_smp_processor_id\<close>, \<open>vmm_smp_is_bootcpu\<close>: what these two calls
    return on the core that runs the code.
\<close>

record state =
  gic_cnt :: int
  gic_data :: "nat \<Rightarrow> gic_chip_data"
  regs :: "virtual_addr_t \<Rightarrow> u32"
  hw_write :: "virtual_addr_t \<Rightarrow> u32 \<Rightarrow> (virtual_addr_t \<Rightarrow> u32) \<Rightarrow> virtual_addr_t \<Rightarrow> u32"
  trace :: "event list"
  host_chip :: "u32 \<Rightarrow> vmm_host_irq_chip option"
  host_chip_data :: "u32 \<Rightarrow> nat option"
  host_handler :: "u32 \<Rightarrow> vmm_host_irq_handler option"
  host_per_cpu :: "u32 \<Rightarrow> bool"
  host_actions :: "(u32 \<times> string \<times> nat) list"
  host_active_callback :: "active_callback option"
  CONFIG_HOST_IRQ_COUNT :: u32
  vmm_smp_processor_id :: u32
  vmm_smp_is_bootcpu :: bool

section \<open>Register access\<close>

definition vmm_readl :: "virtual_addr_t \<Rightarrow> state \<Rightarrow> u32" where
  "vmm_readl addr s = regs s addr"

definition vmm_writel :: "u32 \<Rightarrow> virtual_addr_t \<Rightarrow> state \<Rightarrow> state" where
  "vmm_writel val addr s =
     s\<lparr>regs := hw_write s addr val (regs s), trace := trace s @ [Writel val addr]\<rparr>"

definition gic_write :: "u32 \<Rightarrow> virtual_addr_t \<Rightarrow> state \<Rightarrow> state" where
  "gic_write val addr s = vmm_writel val addr s"

definition gic_read :: "virtual_addr_t \<Rightarrow> state \<Rightarrow> u32" where
  "gic_read addr s = vmm_readl addr s"

definition gic_irq :: "gic_chip_data \<Rightarrow> vmm_host_irq \<Rightarrow> u32" where
  "gic_irq gic irq = num irq - irq_offset gic"


definition vmm_host_generic_irq_exec :: "u32 \<Rightarrow> state \<Rightarrow> state" where
  "vmm_host_generic_irq_exec n s = s\<lparr>trace := trace s @ [Irq_exec n]\<rparr>"

section \<open>The host interrupt framework, as the driver calls it\<close>

text \<open>
  Modelled from the spec: the host interrupt framework (vmm_host_irq.c) is not part of
  the driver. Section 6 of the spec names what the driver consumes: line registration
  (a global line number is associated with the operation set and with the owning
  controller), per-CPU line marking, handler registration for the cascade, the
  active-interrupt source, the dispatch entry point and the line-count capacity. Each call
  records what it was given; \<open>vmm_host_irq_register\<close>, whose result the driver tests,
  fails for a line number at or beyond the capacity.
\<close>

definition vmm_host_irq_set_chip :: "u32 \<Rightarrow> vmm_host_irq_chip \<Rightarrow> state \<Rightarrow> state" where
  "vmm_host_irq_set_chip i chip s = s\<lparr>host_chip := (host_chip s)(i \<mapsto> chip)\<rparr>"

definition vmm_host_irq_set_chip_data :: "u32 \<Rightarrow> nat \<Rightarrow> state \<Rightarrow> state" where
  "vmm_host_irq_set_chip_data i gic s = s\<lparr>host_chip_data := (host_chip_data s)(i \<mapsto> gic)\<rparr>"

definition vmm_host_irq_set_handler :: "u32 \<Rightarrow> vmm_host_irq_handler \<Rightarrow> state \<Rightarrow> state" where
  "vmm_host_irq_set_handler i h s = s\<lparr>host_handler := (host_handler s)(i \<mapsto> h)\<rparr>"

definition vmm_host_irq_mark_per_cpu :: "u32 \<Rightarrow> state \<Rightarrow> state" where
  "vmm_host_irq_mark_per_cpu i s = s\<lparr>host_per_cpu := (host_per_cpu s)(i := True)\<rparr>"

definition vmm_host_irq_register :: "u32 \<Rightarrow> string \<Rightarrow> nat \<Rightarrow> state \<Rightarrow> vmm_error \<times> state" where
  "vmm_host_irq_register irq name dev s =
     (if irq < CONFIG_HOST_IRQ_COUNT s
      then (VMM_OK, s\<lparr>host_actions := host_actions s @ [(irq, name, dev)]\<rparr>)
      else (VMM_EFAIL, s))"

definition vmm_host_irq_set_active_callback :: "active_callback \<Rightarrow> state \<Rightarrow> state" where
  "vmm_host_irq_set_active_callback cb s = s\<lparr>host_active_callback := Some cb\<rparr>"

section \<open>Interrupt chip operations\<close>

definition gic_active_irq :: "u32 \<Rightarrow> state \<Rightarrow> u32" where
  "gic_active_irq cpu_irq_nr s =
     (let ret = gic_read (cpu_base (gic_data s 0) + GIC_CPU_INTACK) s AND 0x3FF
      in if ret < 1021 then ret + irq_offset (gic_data s 0) else UINT_MAX)"

definition gic_eoi_irq :: "vmm_host_irq \<Rightarrow> state \<Rightarrow> state" where
  "gic_eoi_irq irq s =
     (let gic = gic_data s (vmm_host_irq_get_chip_data irq);
          irq_no = gic_irq gic irq;
          s1 = gic_write irq_no (cpu_base gic + GIC_CPU_EOI) s
      in if eoimode gic then gic_write irq_no (cpu2_base gic + GIC_CPU2_DIR) s1 else s1)"

definition gic_mask_irq :: "vmm_host_irq \<Rightarrow> state \<Rightarrow> state" where
  "gic_mask_irq irq s =
     (let gic = gic_data s (vmm_host_irq_get_chip_data irq)
      in gic_write (push_bit (unat (num irq mod 32)) 1)
           (dist_base gic + GIC_DIST_ENABLE_CLEAR + (gic_irq gic irq div 32) * 4) s)"

definition gic_unmask_irq :: "vmm_host_irq \<Rightarrow> state \<Rightarrow> state" where
  "gic_unmask_irq irq s =
     (let gic = gic_data s (vmm_host_irq_get_chip_data irq)
      in gic_write (push_bit (unat (num irq mod 32)) 1)
           (dist_base gic + GIC_DIST_ENABLE_SET + (gic_irq gic irq div 32) * 4) s)"

definition gic_set_type :: "vmm_host_irq \<Rightarrow> vmm_irq_type \<Rightarrow> state \<Rightarrow> vmm_error \<times> state" where
  "gic_set_type irq ty s =
     (let gic = gic_data s (vmm_host_irq_get_chip_data irq);
          base = dist_base gic;
          gicirq = gic_irq gic irq;
          enablemask = push_bit (unat (gicirq mod 32)) (1 :: u32);
          enableoff = (gicirq div 32) * 4;
          confmask = push_bit (unat ((gicirq mod 16) * 2)) (2 :: u32);
          confoff = (gicirq div 16) * 4
      in if gicirq < 16 then (VMM_EINVALID, s)
         else if ty \<noteq> VMM_IRQ_TYPE_LEVEL_HIGH \<and> ty \<noteq> VMM_IRQ_TYPE_EDGE_RISING
           then (VMM_EINVALID, s)
         else
           let val0 = gic_read (base + GIC_DIST_CONFIG + confoff) s;
               val = (if ty = VMM_IRQ_TYPE_LEVEL_HIGH then val0 AND NOT confmask
                      else if ty = VMM_IRQ_TYPE_EDGE_RISING then val0 OR confmask
                      else val0);
               enabled = (gic_read (base + GIC_DIST_ENABLE_SET + enableoff) s AND enablemask \<noteq> 0);
               s1 = (if enabled
                     then gic_write enablemask (base + GIC_DIST_ENABLE_CLEAR + enableoff) s
                     else s);
               s2 = gic_write val (base + GIC_DIST_CONFIG + confoff) s1;
               s3 = (if enabled
                     then gic_write enablemask (base + GIC_DIST_ENABLE_SET + enableoff) s2
                     else s2)
           in (VMM_OK, s3))"


definition gic_set_affinity ::
  "vmm_host_irq \<Rightarrow> vmm_cpumask \<Rightarrow> bool \<Rightarrow> state \<Rightarrow> vmm_error \<times> state" where
  "gic_set_affinity irq mask_val force s =
     (let shift = (num irq mod 4) * 8;
          cpu = vmm_cpumask_first mask_val;
          gic = gic_data s (vmm_host_irq_get_chip_data irq)
      in if cpu \<ge> 8 then (VMM_EINVALID, s)
         else
           let reg = dist_base gic + GIC_DIST_TARGET + (gic_irq gic irq AND NOT 3);
               mask' = push_bit (unat shift) (0xff :: u32);
               bit' = push_bit (unat (cpu + shift)) (1 :: u32);
               val = gic_read reg s AND NOT mask'
           in (VMM_OK, gic_write (val OR bit') reg s))"

section \<open>Cascade handler\<close>

definition gic_handle_cascade_irq :: "int \<Rightarrow> nat \<Rightarrow> state \<Rightarrow> vmm_irq_return_t \<times> state" where
  "gic_handle_cascade_irq irq dev s =
     (let gic = gic_data s dev;
          gic_irq = gic_read (cpu_base gic + GIC_CPU_INTACK) s AND 0x3FF
      in if gic_irq = 1023 then (VMM_IRQ_NONE, s)
         else
           let cascade_irq = gic_irq + irq_offset gic;
               s1 = (if 32 \<le> gic_irq \<and> gic_irq \<le> 1020
                     then vmm_host_generic_irq_exec cascade_irq s else s)
           in (VMM_IRQ_HANDLED, s1))"

section \<open>Initialisation\<close>

text \<open>
  \<open>for (i = i0; i < n; i += k) body(i)\<close> on \<open>unsigned int\<close>. The counter wraps around
  as the C counter does, so the loop need not end: the result is \<open>None\<close> then. A function
  that calls \<open>BUG()\<close> does not return either, and is \<open>None\<close> as well.
\<close>

partial_function (option) for_loop ::
  "u32 \<Rightarrow> u32 \<Rightarrow> u32 \<Rightarrow> (u32 \<Rightarrow> state \<Rightarrow> state) \<Rightarrow> state \<Rightarrow> state option" where
  "for_loop i n k body s =
     (if i < n then for_loop (i + k) n k body (body i s) else Some s)"

definition gic_cascade_irq :: "u32 \<Rightarrow> u32 \<Rightarrow> state \<Rightarrow> state option" where
  "gic_cascade_irq gic_nr irq s =
     (if gic_nr \<ge> GIC_MAX_NR then None
      else case vmm_host_irq_register irq ''GIC-CHILD'' (unat gic_nr) s of
             (rc, s1) \<Rightarrow> if rc \<noteq> VMM_OK then None else Some s1)"

text \<open>
  Lines 262-272 of \<open>gic_dist_init\<close> and 381-384 of \<open>gic_init_bases\<close>: the number of
  lines the distributor at \<open>base\<close> reports, capped at 1020.
\<close>

definition gic_max_irq :: "virtual_addr_t \<Rightarrow> state \<Rightarrow> u32" where
  "gic_max_irq base s =
     (let max_irq = gic_read (base + GIC_DIST_CTR) s AND 0x1f;
          max_irq = (max_irq + 1) * 32
      in if max_irq > 1020 then 1020 else max_irq)"

text \<open>Lines 306-309 of \<open>gic_dist_init\<close>: the limit of the registration loop.\<close>

definition gic_irq_limit :: "gic_chip_data \<Rightarrow> u32 \<Rightarrow> state \<Rightarrow> u32" where
  "gic_irq_limit gic max_irq s =
     (let irq_limit = irq_offset gic + max_irq
      in if irq_limit > CONFIG_HOST_IRQ_COUNT s then CONFIG_HOST_IRQ_COUNT s else irq_limit)"

text \<open>Lines 318-324: the body of the registration loop.\<close>

definition gic_dist_init_line :: "nat \<Rightarrow> u32 \<Rightarrow> state \<Rightarrow> state" where
  "gic_dist_init_line gic i s =
     (let s1 = vmm_host_irq_set_chip i gic_chip s;
          s2 = vmm_host_irq_set_chip_data i gic s1;
          s3 = vmm_host_irq_set_handler i vmm_handle_fast_eoi s2
      in if i < 32 then vmm_host_irq_mark_per_cpu i s3 else s3)"

definition gic_dist_init :: "nat \<Rightarrow> u32 \<Rightarrow> state \<Rightarrow> state option" where
  "gic_dist_init gic irq_start s =
     (let cpumask = push_bit (unat (vmm_smp_processor_id s)) (1 :: u32);
          base = dist_base (gic_data s gic);
          cpumask = cpumask OR push_bit 8 cpumask;
          cpumask = cpumask OR push_bit 16 cpumask;
          s1 = gic_write 0 (base + GIC_DIST_CTRL) s;
          max_irq = gic_max_irq base s1
      in do {
        s2 \<leftarrow> for_loop 32 max_irq 16
               (\<lambda>i. gic_write 0 (base + GIC_DIST_CONFIG + (i * 4) div 16)) s1;
        s3 \<leftarrow> for_loop 32 max_irq 4
               (\<lambda>i. gic_write cpumask (base + GIC_DIST_TARGET + (i * 4) div 4)) s2;
        s4 \<leftarrow> for_loop 0 max_irq 4
               (\<lambda>i. gic_write 0xa0a0a0a0 (base + GIC_DIST_PRI + (i * 4) div 4)) s3;
        s5 \<leftarrow> for_loop 0 max_irq 32
               (\<lambda>i. gic_write 0xffffffff (base + GIC_DIST_ENABLE_CLEAR + (i * 4) div 32)) s4;
        s6 \<leftarrow> for_loop 0 (gic_irq_limit (gic_data s5 gic) max_irq s5) 1
               (gic_dist_init_line gic) s5;
        Some (gic_write 1 (base + GIC_DIST_CTRL) s6)
      })"

definition gic_cpu_init :: "nat \<Rightarrow> state \<Rightarrow> state option" where
  "gic_cpu_init gic s =
     (let g = gic_data s gic;
          s1 = gic_write 0xffff0000 (dist_base g + GIC_DIST_ENABLE_CLEAR) s;
          s2 = gic_write 0x0000ffff (dist_base g + GIC_DIST_ENABLE_SET) s1
      in do {
        s3 \<leftarrow> for_loop 0 32 4
               (\<lambda>i. gic_write 0xa0a0a0a0 (dist_base g + GIC_DIST_PRI + (i * 4) div 4)) s2;
        let s4 = gic_write 0xf0 (cpu_base g + GIC_CPU_PRIMASK) s3;
        Some (if eoimode g
              then gic_write (1 OR push_bit 9 1) (cpu_base g + GIC_CPU_CTRL) s4
              else gic_write 1 (cpu_base g + GIC_CPU_CTRL) s4)
      })"

definition gic_init_bases ::
  "u32 \<Rightarrow> bool \<Rightarrow> u32 \<Rightarrow> virtual_addr_t \<Rightarrow> virtual_addr_t \<Rightarrow> virtual_addr_t \<Rightarrow> state
     \<Rightarrow> (vmm_error \<times> state) option" where
  "gic_init_bases gic_nr eoimode' irq_start cpu_base' cpu2_base' dist_base' s =
     (if gic_nr \<ge> GIC_MAX_NR then None
      else
        let gic = unat gic_nr;
            s1 = s\<lparr>gic_data := (gic_data s)(gic := (gic_data s gic)
                   \<lparr>eoimode := eoimode',
                    irq_offset := (irq_start - 1) AND NOT 31,
                    dist_base := dist_base',
                    cpu_base := cpu_base',
                    cpu2_base := cpu2_base'\<rparr>)\<rparr>;
            gic_irqs' = gic_max_irq (dist_base (gic_data s1 gic)) s1;
            s2 = s1\<lparr>gic_data := (gic_data s1)(gic := (gic_data s1 gic)\<lparr>gic_irqs := gic_irqs'\<rparr>)\<rparr>
        in do {
          s3 \<leftarrow> gic_dist_init gic irq_start s2;
          s4 \<leftarrow> gic_cpu_init gic s3;
          Some (VMM_OK, s4)
        })"

definition gic_secondary_init :: "u32 \<Rightarrow> state \<Rightarrow> state option" where
  "gic_secondary_init gic_nr s =
     (if gic_nr \<ge> GIC_MAX_NR then None else gic_cpu_init (unat gic_nr) s)"

text \<open>
  \<open>gic_devtree_init\<close>. A null \<open>node\<close> or \<open>parent\<close> is \<open>None\<close>. When mapping the
  distributor or the CPU interface fails, the code warns and goes on with the local
  variable as it was: \<open>uninit\<close> is the pair of indeterminate values that \<open>dist_base\<close> and
  \<open>cpu_base\<close> hold then. The diagnostics of \<open>WARN\<close> and \<open>WARN_ON\<close> are not modelled.
\<close>

definition gic_devtree_init ::
  "vmm_devtree_node option \<Rightarrow> vmm_devtree_node option \<Rightarrow> bool
     \<Rightarrow> virtual_addr_t \<times> virtual_addr_t \<Rightarrow> state \<Rightarrow> (vmm_error \<times> state) option" where
  "gic_devtree_init node parent eoimode' uninit s =
     (case node of
        None \<Rightarrow> Some (VMM_ENODEV, s)
      | Some n \<Rightarrow>
        let dist_base' = (case regmap n 0 of Some a \<Rightarrow> a | None \<Rightarrow> fst uninit);
            cpu_base' = (case regmap n 1 of Some a \<Rightarrow> a | None \<Rightarrow> snd uninit);
            cpu2_base' = (case regmap n 4 of Some a \<Rightarrow> a | None \<Rightarrow> cpu_base' + 0x1000);
            irq = (case read_u32 n ''irq_start'' of Some v \<Rightarrow> v | None \<Rightarrow> 0)
        in do {
          (rc, s1) \<leftarrow> gic_init_bases (word_of_int (gic_cnt s)) eoimode' irq
                         cpu_base' cpu2_base' dist_base' s;
          s2 \<leftarrow> (if parent \<noteq> None
                then let irq = (case read_u32 n ''parent_irq'' of Some v \<Rightarrow> v | None \<Rightarrow> 1020)
                     in gic_cascade_irq (word_of_int (gic_cnt s1)) irq s1
                else Some (vmm_host_irq_set_active_callback active_callback_gic_active_irq s1));
          Some (VMM_OK, s2\<lparr>gic_cnt := gic_cnt s2 + 1\<rparr>)
        })"

definition gic_init ::
  "vmm_devtree_node option \<Rightarrow> virtual_addr_t \<times> virtual_addr_t \<Rightarrow> state
     \<Rightarrow> (vmm_error \<times> state) option" where
  "gic_init node uninit s =
     (if vmm_smp_is_bootcpu s then gic_devtree_init node None False uninit s
      else do { s1 \<leftarrow> gic_secondary_init 0 s; Some (VMM_OK, s1) })"

definition gic_eoimode_init ::
  "vmm_devtree_node option \<Rightarrow> virtual_addr_t \<times> virtual_addr_t \<Rightarrow> state
     \<Rightarrow> (vmm_error \<times> state) option" where
  "gic_eoimode_init node uninit s =
     (if vmm_smp_is_bootcpu s then gic_devtree_init node None True uninit s
      else do { s1 \<leftarrow> gic_secondary_init 0 s; Some (VMM_OK, s1) })"

section \<open>The distributor hardware\<close>



section \<open>Auxiliary notions for the proofs\<close>

text \<open>
  \<open>frame s s'\<close>: the driver's own variables, the registered handlers, the active-interrupt
  callback and the parameters of the environment are the same in \<open>s'\<close> as in \<open>s\<close>; only
  the hardware and the per-line table of the host framework may differ.
\<close>

definition frame :: "state \<Rightarrow> state \<Rightarrow> bool" where
  "frame s s' \<longleftrightarrow>
     gic_cnt s' = gic_cnt s \<and> gic_data s' = gic_data s \<and> hw_write s' = hw_write s \<and>
     host_actions s' = host_actions s \<and> host_active_callback s' = host_active_callback s \<and>
     CONFIG_HOST_IRQ_COUNT s' = CONFIG_HOST_IRQ_COUNT s \<and>
     vmm_smp_processor_id s' = vmm_smp_processor_id s \<and>
     vmm_smp_is_bootcpu s' = vmm_smp_is_bootcpu s"

text \<open>The per-line table of the host framework is the same, for every line or for line \<open>i\<close>.\<close>

definition same_lines :: "state \<Rightarrow> state \<Rightarrow> bool" where
  "same_lines s s' \<longleftrightarrow>
     host_chip s' = host_chip s \<and> host_chip_data s' = host_chip_data s \<and>
     host_handler s' = host_handler s \<and> host_per_cpu s' = host_per_cpu s"

definition same_line :: "u32 \<Rightarrow> state \<Rightarrow> state \<Rightarrow> bool" where
  "same_line i s s' \<longleftrightarrow>
     host_chip s' i = host_chip s i \<and> host_chip_data s' i = host_chip_data s i \<and>
     host_handler s' i = host_handler s i \<and> host_per_cpu s' i = host_per_cpu s i"

text \<open>Line \<open>i\<close> is registered to controller \<open>gic\<close>.\<close>

definition line_registered :: "nat \<Rightarrow> u32 \<Rightarrow> state \<Rightarrow> bool" where
  "line_registered gic i s \<longleftrightarrow>
     host_chip s i = Some gic_chip \<and> host_chip_data s i = Some gic \<and>
     host_handler s i = Some vmm_handle_fast_eoi"

text \<open>
  The limit of the registration loop of \<open>gic_dist_init gic irq_start s\<close>, in terms of the
  state \<open>s\<close> the call starts in: \<open>max_irq\<close> is read after the store that disables
  distribution.
\<close>

definition dist_irq_limit :: "nat \<Rightarrow> state \<Rightarrow> u32" where
  "dist_irq_limit gic s =
     (let base = dist_base (gic_data s gic);
          s1 = gic_write 0 (base + GIC_DIST_CTRL) s
      in gic_irq_limit (gic_data s gic) (gic_max_irq base s1) s)"

text \<open>
  The invariant of the registration loop when its counter is \<open>j\<close>: the lines below \<open>j\<close>
  are registered to \<open>gic\<close>, those of them below 32 are marked per-CPU, and the lines
  from \<open>j\<close> on are as they were.
\<close>

definition lines_upto :: "nat \<Rightarrow> u32 \<Rightarrow> state \<Rightarrow> state \<Rightarrow> bool" where
  "lines_upto gic j s t \<longleftrightarrow>
     frame s t \<and>
     (\<forall>i. i < j \<longrightarrow> line_registered gic i t \<and> (i < 32 \<longrightarrow> host_per_cpu t i)) \<and>
     (\<forall>i. j \<le> i \<longrightarrow> same_line i s t)"

text \<open>The table entry that \<open>gic_init_bases\<close> writes (lines 370-385).\<close>

definition gic_entry ::
  "bool \<Rightarrow> u32 \<Rightarrow> virtual_addr_t \<Rightarrow> virtual_addr_t \<Rightarrow> virtual_addr_t \<Rightarrow> state \<Rightarrow> gic_chip_data" where
  "gic_entry eoimode' irq_start cpu_base' cpu2_base' dist_base' s =
     \<lparr>eoimode = eoimode', irq_offset = (irq_start - 1) AND NOT 31,
      gic_irqs = gic_max_irq dist_base' s,
      dist_base = dist_base', cpu_base = cpu_base', cpu2_base = cpu2_base'\<rparr>"

section \<open>Example inputs\<close>

text \<open>Registers that keep the last value stored to them.\<close>

definition plain_store ::
  "virtual_addr_t \<Rightarrow> u32 \<Rightarrow> (virtual_addr_t \<Rightarrow> u32) \<Rightarrow> virtual_addr_t \<Rightarrow> u32" where
  "plain_store addr val r = r(addr := val)"

text \<open>
  A state after bootstrap in which every entry of the table has the given mode and
  offset, 64 lines, the distributor at 0x1000, the CPU interface at 0x100 and the second
  CPU interface bank at 0x2000; the acknowledge register reads \<open>ack\<close> and every other
  register reads 0. The host framework has room for 1024 lines.
\<close>

definition example_gic :: "bool \<Rightarrow> u32 \<Rightarrow> gic_chip_data" where
  "example_gic split off = \<lparr>eoimode = split, irq_offset = off, gic_irqs = 64,
     dist_base = 0x1000, cpu_base = 0x100, cpu2_base = 0x2000\<rparr>"

definition example_state :: "bool \<Rightarrow> u32 \<Rightarrow> u32 \<Rightarrow> state" where
  "example_state split off ack =
     \<lparr>gic_cnt = 1, gic_data = (\<lambda>_. example_gic split off),
      regs = (\<lambda>_. 0)(0x10c := ack), hw_write = plain_store, trace = [],
      host_chip = (\<lambda>_. None), host_chip_data = (\<lambda>_. None), host_handler = (\<lambda>_. None),
      host_per_cpu = (\<lambda>_. False), host_actions = [], host_active_callback = None,
      CONFIG_HOST_IRQ_COUNT = 1024, vmm_smp_processor_id = 0, vmm_smp_is_bootcpu = True\<rparr>"

text \<open>
  The state \<open>boot_state ctr cap\<close> before bootstrap: the driver's variables are zero, the
  line-count register of a distributor at 0x1000 reads \<open>ctr\<close>, every other register reads
  0, and the host framework has room for \<open>cap\<close> lines and has nothing registered.
\<close>

definition boot_state :: "u32 \<Rightarrow> u32 \<Rightarrow> state" where
  "boot_state ctr cap =
     \<lparr>gic_cnt = 0,
      gic_data = (\<lambda>_. \<lparr>eoimode = False, irq_offset = 0, gic_irqs = 0,
                         dist_base = 0, cpu_base = 0, cpu2_base = 0\<rparr>),
      regs = (\<lambda>_. 0)(0x1004 := ctr), hw_write = plain_store, trace = [],
      host_chip = (\<lambda>_. None), host_chip_data = (\<lambda>_. None), host_handler = (\<lambda>_. None),
      host_per_cpu = (\<lambda>_. False), host_actions = [], host_active_callback = None,
      CONFIG_HOST_IRQ_COUNT = cap, vmm_smp_processor_id = 0, vmm_smp_is_bootcpu = True\<rparr>"

text \<open>
  A device-tree node that maps the distributor to 0x1000 and the CPU interface to 0x100,
  has no second CPU interface bank and no \<open>parent_irq\<close>, and has the given \<open>irq_start\<close>,
  if any.
\<close>

definition example_node :: "u32 option \<Rightarrow> vmm_devtree_node" where
  "example_node start =
     \<lparr>regmap = (\<lambda>i. if i = 0 then Some 0x1000 else if i = 1 then Some 0x100 else None),
      read_u32 = (\<lambda>name. if name = ''irq_start'' then start else None)\<rparr>"


section \<open>Loops\<close>

lemma for_loop_rule_aux:
  assumes "for_loop i n k body s = Some s'"
  shows "I i s \<longrightarrow> (\<forall>j t. j < n \<longrightarrow> I j t \<longrightarrow> I (j + k) (body j t)) \<longrightarrow>
   (\<exists>j. \<not> j < n \<and> I j s')"
  using assms
proof (induction i n k body s s' rule: for_loop.raw_induct)
  case (1 f i n k body s s')
  show ?case
  proof (intro impI)
    assume inv: "I i s" and step: "\<forall>j t. j < n \<longrightarrow> I j t \<longrightarrow> I (j + k) (body j t)"
    show "\<exists>j. \<not> j < n \<and> I j s'"
    proof (cases "i < n")
      case True
      with 1(2) have "f (i + k) n k body (body i s) = Some s'" by simp
      moreover have "for_loop (i + k) n k body (body i s) = Some s'"
        using 1(3) True by (subst (asm) for_loop.simps) simp
      moreover have "I (i + k) (body i s)" using step True inv by blast
      ultimately show ?thesis using 1(1) step by blast
    next
      case False
      with 1(2) have "s' = s" by simp
      with False inv show ?thesis by blast
    qed
  qed
qed (rule assms)

lemma for_loop_rule:
  assumes "for_loop i n k body s = Some s'"
    and "I i s"
    and "\<And>j t. j < n \<Longrightarrow> I j t \<Longrightarrow> I (j + k) (body j t)"
  shows "\<exists>j. \<not> j < n \<and> I j s'"
  using for_loop_rule_aux [OF assms(1), of I] assms(2,3) by blast

lemma for_loop_invariant:
  assumes "for_loop i n k body s = Some s'"
    and "P s"
    and "\<And>j t. P t \<Longrightarrow> P (body j t)"
  shows "P s'"
  using for_loop_rule [OF assms(1), where I = "\<lambda>_. P"] assms(2,3) by blast

lemma for_loop_terminates:
  assumes "unat n + unat k \<le> 2 ^ 32" and "k \<noteq> 0"
  shows "\<exists>s'. for_loop i n k body s = Some s'"
proof (induction "unat n - unat i" arbitrary: i s rule: less_induct)
  case less
  show ?case
  proof (cases "i < n")
    case False
    then show ?thesis by (simp add: for_loop.simps)
  next
    case True
    then have lt: "unat i < unat n" by (simp add: word_less_nat_alt)
    with assms have nowrap: "unat i + unat k < 2 ^ 32" by simp
    then have "unat (i + k) = unat i + unat k"
      by (simp add: unat_add_lem [THEN iffD1])
    moreover have "0 < unat k" using assms(2) by (simp add: unat_gt_0)
    ultimately have "unat n - unat (i + k) < unat n - unat i" using lt by simp
    from less [OF this] obtain s' where "for_loop (i + k) n k body (body i s) = Some s'"
      by blast
    with True show ?thesis by (subst for_loop.simps) simp
  qed
qed

lemma frame_refl: "frame s s"
  by (simp add: frame_def)

lemma frame_trans: "frame s t \<Longrightarrow> frame t u \<Longrightarrow> frame s u"
  by (simp add: frame_def)

lemma same_lines_refl: "same_lines s s"
  by (simp add: same_lines_def)

lemma same_lines_trans: "same_lines s t \<Longrightarrow> same_lines t u \<Longrightarrow> same_lines s u"
  by (simp add: same_lines_def)

lemma frame_gic_write: "frame s (gic_write v a s)"
  by (simp add: frame_def gic_write_def vmm_writel_def)

lemma same_lines_gic_write: "same_lines s (gic_write v a s)"
  by (simp add: same_lines_def gic_write_def vmm_writel_def)

lemma frame_gic_dist_init_line: "frame s (gic_dist_init_line gic i s)"
  by (simp add: frame_def gic_dist_init_line_def Let_def vmm_host_irq_set_chip_def
      vmm_host_irq_set_chip_data_def vmm_host_irq_set_handler_def vmm_host_irq_mark_per_cpu_def)

lemma write_loop_frame:
  assumes "for_loop i n k (\<lambda>j. gic_write (v j) (a j)) s = Some s'"
  shows "frame s s' \<and> same_lines s s'"
  using assms
  by (rule for_loop_invariant)
     (auto intro: frame_refl same_lines_refl frame_trans same_lines_trans
        frame_gic_write same_lines_gic_write)

lemma gic_max_irq_le: "gic_max_irq base s \<le> 1020"
  by (simp add: gic_max_irq_def Let_def not_less)

lemma gic_max_irq_bound: "unat (gic_max_irq base s) \<le> 1020"
  using gic_max_irq_le [of base s] by (simp add: word_le_nat_alt)

lemma write_loop_returns:
  assumes "n \<le> 1020" and "k = 4 \<or> k = 16 \<or> k = 32"
  shows "\<exists>s'. for_loop i n k body s = Some s'"
proof -
  from assms(1) have "unat n \<le> 1020" by (simp add: word_le_nat_alt)
  moreover from assms(2) have "unat k \<le> 32" and "k \<noteq> 0" by auto
  ultimately show ?thesis by (intro for_loop_terminates) auto
qed

lemma count_loop_returns: "\<exists>s'. for_loop i n 1 body s = Some s'"
proof -
  have "unat n < 2 ^ 32" using unsigned_less [of n, where ?'a = nat] by simp
  then show ?thesis by (intro for_loop_terminates) auto
qed

lemma gic_irq_limit_frame:
  "frame s t \<Longrightarrow> gic_irq_limit (gic_data t gic) m t = gic_irq_limit (gic_data s gic) m s"
  by (simp add: frame_def gic_irq_limit_def Let_def)

lemma gic_irq_limit_le: "gic_irq_limit g m s \<le> CONFIG_HOST_IRQ_COUNT s"
  by (simp add: gic_irq_limit_def Let_def not_less)

lemma dist_irq_limit_le: "dist_irq_limit gic s \<le> CONFIG_HOST_IRQ_COUNT s"
  by (simp add: dist_irq_limit_def Let_def gic_irq_limit_le)

lemma gic_dist_init_steps:
  obtains s5 s6 where
    "frame s s5" and "same_lines s s5"
    and "for_loop 0 (dist_irq_limit gic s) 1 (gic_dist_init_line gic) s5 = Some s6"
    and "gic_dist_init gic irq_start s =
           Some (gic_write 1 (dist_base (gic_data s gic) + GIC_DIST_CTRL) s6)"
proof -
  define base where "base = dist_base (gic_data s gic)"
  define s1 where "s1 = gic_write 0 (base + GIC_DIST_CTRL) s"
  define m where "m = gic_max_irq base s1"
  define cm where "cm = push_bit (unat (vmm_smp_processor_id s)) (1 :: u32)"
  define cm1 where "cm1 = cm OR push_bit 8 cm"
  define cm2 where "cm2 = cm1 OR push_bit 16 cm1"
  have m: "m \<le> 1020" unfolding m_def by (rule gic_max_irq_le)
  obtain s2 where s2: "for_loop 32 m 16
      (\<lambda>i. gic_write 0 (base + GIC_DIST_CONFIG + (i * 4) div 16)) s1 = Some s2"
    using write_loop_returns [OF m] by blast
  obtain s3 where s3: "for_loop 32 m 4
      (\<lambda>i. gic_write cm2 (base + GIC_DIST_TARGET + (i * 4) div 4)) s2 = Some s3"
    using write_loop_returns [OF m] by blast
  obtain s4 where s4: "for_loop 0 m 4
      (\<lambda>i. gic_write 0xa0a0a0a0 (base + GIC_DIST_PRI + (i * 4) div 4)) s3 = Some s4"
    using write_loop_returns [OF m] by blast
  obtain s5 where s5: "for_loop 0 m 32
      (\<lambda>i. gic_write 0xffffffff (base + GIC_DIST_ENABLE_CLEAR + (i * 4) div 32)) s4 = Some s5"
    using write_loop_returns [OF m] by blast
  have f1: "frame s s1" "same_lines s s1"
    unfolding s1_def by (rule frame_gic_write same_lines_gic_write)+
  have f5: "frame s s5" "same_lines s s5"
    using f1 write_loop_frame [OF s2] write_loop_frame [OF s3] write_loop_frame [OF s4]
      write_loop_frame [OF s5]
    by (blast intro: frame_trans same_lines_trans)+
  have lim: "gic_irq_limit (gic_data s5 gic) m s5 = dist_irq_limit gic s"
    unfolding dist_irq_limit_def Let_def base_def [symmetric] s1_def [symmetric] m_def [symmetric]
    by (rule gic_irq_limit_frame [OF f5(1)])
  obtain s6 where s6: "for_loop 0 (dist_irq_limit gic s) 1 (gic_dist_init_line gic) s5 = Some s6"
    using count_loop_returns by blast
  have "gic_dist_init gic irq_start s = Some (gic_write 1 (base + GIC_DIST_CTRL) s6)"
    unfolding gic_dist_init_def Let_def base_def [symmetric] s1_def [symmetric] m_def [symmetric]
      cm_def [symmetric] cm1_def [symmetric] cm2_def [symmetric]
    by (simp only: s2 s3 s4 s5 lim s6 bind.bind_lunit)
  with f5 s6 show ?thesis unfolding base_def by (rule that)
qed

lemmas host_defs = gic_dist_init_line_def vmm_host_irq_set_chip_def
  vmm_host_irq_set_chip_data_def vmm_host_irq_set_handler_def vmm_host_irq_mark_per_cpu_def

lemma gic_dist_init_line_self:
  "line_registered gic j (gic_dist_init_line gic j t)"
  "j < 32 \<Longrightarrow> host_per_cpu (gic_dist_init_line gic j t) j"
  by (simp_all add: line_registered_def host_defs Let_def)

lemma gic_dist_init_line_other:
  "i \<noteq> j \<Longrightarrow> same_line i t (gic_dist_init_line gic j t)"
  by (simp add: same_line_def host_defs Let_def)

lemma same_line_refl: "same_line i s s"
  by (simp add: same_line_def)

lemma same_line_trans: "same_line i s t \<Longrightarrow> same_line i t u \<Longrightarrow> same_line i s u"
  by (simp add: same_line_def)

lemma same_lines_same_line: "same_lines s t \<Longrightarrow> same_line i s t"
  by (simp add: same_lines_def same_line_def)

lemma same_line_registered:
  "same_line i t u \<Longrightarrow> line_registered gic i t \<Longrightarrow> line_registered gic i u"
  "same_line i t u \<Longrightarrow> host_per_cpu t i \<Longrightarrow> host_per_cpu u i"
  by (simp_all add: same_line_def line_registered_def)

lemma word_less_succ_cases: "i < j + 1 \<Longrightarrow> i < j \<or> i = j" for i j :: u32
  by unat_arith

lemma word_succ_le_less: "j < n \<Longrightarrow> j + 1 \<le> i \<Longrightarrow> j < i" for i j n :: u32
  by unat_arith

lemma lines_upto_start: "lines_upto gic 0 s s"
  by (simp add: lines_upto_def frame_refl same_line_refl)

lemma lines_upto_step:
  assumes "j < n" and "lines_upto gic j s t"
  shows "lines_upto gic (j + 1) s (gic_dist_init_line gic j t)"
  unfolding lines_upto_def
proof (intro conjI allI impI)
  let ?u = "gic_dist_init_line gic j t"
  show "frame s ?u"
    using assms(2) frame_gic_dist_init_line [of t gic j]
    by (auto simp: lines_upto_def intro: frame_trans)
  {
    fix i assume "i < j + 1"
    then consider "i < j" | "i = j" using word_less_succ_cases by blast
    then show "line_registered gic i ?u"
    proof cases
      case 1
      then have "i \<noteq> j" by auto
      with 1 assms(2) show ?thesis
        by (auto simp: lines_upto_def
            intro: same_line_registered(1) [OF gic_dist_init_line_other])
    next
      case 2
      then show ?thesis by (simp add: gic_dist_init_line_self)
    qed
  next
    fix i assume "i < j + 1" and lt: "i < 32"
    then consider "i < j" | "i = j" using word_less_succ_cases by blast
    then show "host_per_cpu ?u i"
    proof cases
      case 1
      then have "i \<noteq> j" by auto
      with 1 lt assms(2) show ?thesis
        by (auto simp: lines_upto_def
            intro: same_line_registered(2) [OF gic_dist_init_line_other])
    next
      case 2
      with lt show ?thesis by (simp add: gic_dist_init_line_self)
    qed
  next
    fix i assume "j + 1 \<le> i"
    with assms(1) have "j < i" by (rule word_succ_le_less)
    then have "j \<le> i" and "i \<noteq> j" by auto
    with assms(2) show "same_line i s ?u"
      by (auto simp: lines_upto_def intro: same_line_trans gic_dist_init_line_other)
  }
qed

lemma registration_loop:
  assumes "for_loop 0 n 1 (gic_dist_init_line gic) s = Some s'"
  shows "lines_upto gic n s s'"
proof -
  have "\<exists>j. \<not> j < n \<and> (j \<le> n \<and> lines_upto gic j s s')"
    using assms
  proof (rule for_loop_rule)
    show "0 \<le> n \<and> lines_upto gic 0 s s" by (simp add: lines_upto_start)
  next
    fix j t assume "j < n" and "j \<le> n \<and> lines_upto gic j s t"
    then show "j + 1 \<le> n \<and> lines_upto gic (j + 1) s (gic_dist_init_line gic j t)"
      by (simp add: inc_le lines_upto_step)
  qed
  then obtain j where "\<not> j < n" "j \<le> n" "lines_upto gic j s s'" by blast
  moreover from this have "j = n" by auto
  ultimately show ?thesis by simp
qed

lemma lines_upto_write:
  "lines_upto gic n s t \<Longrightarrow> lines_upto gic n s (gic_write v a t)"
  unfolding lines_upto_def
  using frame_gic_write [of t v a] same_lines_gic_write [of t v a]
  by (auto intro: frame_trans same_line_trans same_lines_same_line same_line_registered)

lemma lines_upto_after_writes:
  "frame s t \<Longrightarrow> same_lines s t \<Longrightarrow> lines_upto gic n t u \<Longrightarrow> lines_upto gic n s u"
  unfolding lines_upto_def
  by (auto intro: frame_trans same_line_trans same_lines_same_line)

lemma gic_dist_init_lines:
  "\<exists>s'. gic_dist_init gic irq_start s = Some s' \<and> lines_upto gic (dist_irq_limit gic s) s s'"
proof -
  obtain s5 s6 where st: "frame s s5" "same_lines s s5"
    "for_loop 0 (dist_irq_limit gic s) 1 (gic_dist_init_line gic) s5 = Some s6"
    "gic_dist_init gic irq_start s =
       Some (gic_write 1 (dist_base (gic_data s gic) + GIC_DIST_CTRL) s6)"
    by (rule gic_dist_init_steps)
  from registration_loop [OF st(3)] have "lines_upto gic (dist_irq_limit gic s) s5 s6" .
  with st(1,2) have "lines_upto gic (dist_irq_limit gic s) s s6"
    by (rule lines_upto_after_writes)
  then have "lines_upto gic (dist_irq_limit gic s) s
      (gic_write 1 (dist_base (gic_data s gic) + GIC_DIST_CTRL) s6)"
    by (rule lines_upto_write)
  with st(4) show ?thesis by simp
qed

section \<open>Initialisation: what the calls return\<close>

lemma frame_then_write: "frame s t \<Longrightarrow> frame s (gic_write v a t)"
  by (blast intro: frame_trans frame_gic_write)

lemma same_lines_then_write: "same_lines s t \<Longrightarrow> same_lines s (gic_write v a t)"
  by (blast intro: same_lines_trans same_lines_gic_write)

lemma gic_chip_data_all_fields:
  "g\<lparr>eoimode := a, irq_offset := b, dist_base := c, cpu_base := d, cpu2_base := e,
      gic_irqs := f\<rparr> =
   \<lparr>eoimode = a, irq_offset = b, gic_irqs = f, dist_base = c, cpu_base = d, cpu2_base = e\<rparr>"
  for g :: gic_chip_data
  by (cases g) simp

lemma gic_cpu_init_steps:
  "\<exists>s'. gic_cpu_init gic s = Some s' \<and> frame s s' \<and> same_lines s s'"
proof -
  define g where "g = gic_data s gic"
  define s1 where "s1 = gic_write 0xffff0000 (dist_base g + GIC_DIST_ENABLE_CLEAR) s"
  define s2 where "s2 = gic_write 0x0000ffff (dist_base g + GIC_DIST_ENABLE_SET) s1"
  obtain s3 where s3: "for_loop 0 32 4
      (\<lambda>i. gic_write 0xa0a0a0a0 (dist_base g + GIC_DIST_PRI + (i * 4) div 4)) s2 = Some s3"
    using write_loop_returns [of 32 4 0 _ s2] by auto
  define s4 where "s4 = gic_write 0xf0 (cpu_base g + GIC_CPU_PRIMASK) s3"
  define s5 where "s5 = (if eoimode g
              then gic_write (1 OR push_bit 9 1) (cpu_base g + GIC_CPU_CTRL) s4
              else gic_write 1 (cpu_base g + GIC_CPU_CTRL) s4)"
  have "frame s s2 \<and> same_lines s s2"
    unfolding s1_def s2_def
    by (blast intro: frame_trans same_lines_trans frame_gic_write same_lines_gic_write)
  with write_loop_frame [OF s3] have "frame s s3 \<and> same_lines s s3"
    by (blast intro: frame_trans same_lines_trans)
  then have "frame s s5 \<and> same_lines s s5"
    unfolding s4_def s5_def
    by (simp add: frame_then_write same_lines_then_write)
  moreover have "gic_cpu_init gic s = Some s5"
    using s3
    unfolding gic_cpu_init_def Let_def g_def [symmetric] s1_def [symmetric] s2_def [symmetric]
    by (simp add: s4_def s5_def)
  ultimately show ?thesis by blast
qed

lemma gic_init_bases_result:
  assumes "gic_nr < GIC_MAX_NR"
  shows "\<exists>s'. gic_init_bases gic_nr em irq_start cb c2b db s = Some (VMM_OK, s') \<and>
     gic_data s' = (gic_data s)(unat gic_nr := gic_entry em irq_start cb c2b db s) \<and>
     gic_cnt s' = gic_cnt s \<and> host_actions s' = host_actions s \<and>
     host_active_callback s' = host_active_callback s \<and>
     CONFIG_HOST_IRQ_COUNT s' = CONFIG_HOST_IRQ_COUNT s \<and>
     (\<forall>i. CONFIG_HOST_IRQ_COUNT s \<le> i \<longrightarrow> same_line i s s')"
proof -
  define gic where "gic = unat gic_nr"
  define s2 where "s2 = s\<lparr>gic_data := (gic_data s)(gic := gic_entry em irq_start cb c2b db s)\<rparr>"
  obtain s3 where s3: "gic_dist_init gic irq_start s2 = Some s3"
    and l3: "lines_upto gic (dist_irq_limit gic s2) s2 s3"
    using gic_dist_init_lines by blast
  obtain s4 where s4: "gic_cpu_init gic s3 = Some s4" and f4: "frame s3 s4" "same_lines s3 s4"
    using gic_cpu_init_steps by blast
  have f3: "frame s2 s3" using l3 by (simp add: lines_upto_def)
  have nr: "\<not> gic_nr \<ge> GIC_MAX_NR" using assms by (simp only: not_le)
  define s1 where "s1 = s\<lparr>gic_data := (gic_data s)(gic := gic_data s gic
                   \<lparr>eoimode := em, irq_offset := (irq_start - 1) AND NOT 31,
                    dist_base := db, cpu_base := cb, cpu2_base := c2b\<rparr>)\<rparr>"
  have m1: "gic_max_irq (dist_base (gic_data s1 gic)) s1 = gic_max_irq db s"
    by (simp add: s1_def gic_max_irq_def gic_read_def vmm_readl_def)
  have s2': "s1\<lparr>gic_data := (gic_data s1)(gic := gic_data s1 gic
                   \<lparr>gic_irqs := gic_max_irq db s\<rparr>)\<rparr> = s2"
    by (simp add: s1_def s2_def gic_entry_def gic_chip_data_all_fields)
  have "gic_init_bases gic_nr em irq_start cb c2b db s = Some (VMM_OK, s4)"
    unfolding gic_init_bases_def Let_def gic_def [symmetric] s1_def [symmetric]
    by (simp only: nr if_False m1 s2' s3 s4 bind.bind_lunit)
  moreover have "frame s2 s4" using f3 f4(1) by (rule frame_trans)
  then have "gic_data s4 = (gic_data s)(gic := gic_entry em irq_start cb c2b db s)"
    "gic_cnt s4 = gic_cnt s" "host_actions s4 = host_actions s"
    "host_active_callback s4 = host_active_callback s"
    "CONFIG_HOST_IRQ_COUNT s4 = CONFIG_HOST_IRQ_COUNT s"
    by (simp_all add: frame_def s2_def)
  moreover have "\<forall>i. CONFIG_HOST_IRQ_COUNT s \<le> i \<longrightarrow> same_line i s s4"
  proof (intro allI impI)
    fix i assume "CONFIG_HOST_IRQ_COUNT s \<le> i"
    moreover have "dist_irq_limit gic s2 \<le> CONFIG_HOST_IRQ_COUNT s"
      using dist_irq_limit_le [of gic s2] by (simp add: s2_def)
    ultimately have "dist_irq_limit gic s2 \<le> i" by simp
    with l3 have "same_line i s2 s3" by (simp add: lines_upto_def)
    moreover have "same_line i s s2" by (simp add: same_line_def s2_def)
    moreover have "same_line i s3 s4" using f4(2) by (rule same_lines_same_line)
    ultimately show "same_line i s s4" by (blast intro: same_line_trans)
  qed
  ultimately show ?thesis unfolding gic_def by blast
qed

lemma gic_cascade_irq_result:
  assumes "gic_nr < GIC_MAX_NR" and "irq < CONFIG_HOST_IRQ_COUNT s"
  shows "gic_cascade_irq gic_nr irq s =
           Some (s\<lparr>host_actions := host_actions s @ [(irq, ''GIC-CHILD'', unat gic_nr)]\<rparr>)"
proof -
  have "\<not> gic_nr \<ge> GIC_MAX_NR" using assms(1) by (simp only: not_le)
  then show ?thesis using assms(2)
    by (simp add: gic_cascade_irq_def vmm_host_irq_register_def del: GIC_MAX_NR_def)
qed

lemma gic_devtree_init_cascade:
  fixes s :: state and n :: vmm_devtree_node
  defines "nr \<equiv> word_of_int (gic_cnt s) :: u32"
  defines "pirq \<equiv> (case read_u32 n ''parent_irq'' of Some v \<Rightarrow> v | None \<Rightarrow> 1020)"
  assumes "nr < GIC_MAX_NR" and "parent \<noteq> None" and "pirq < CONFIG_HOST_IRQ_COUNT s"
  shows "\<exists>s'. gic_devtree_init (Some n) parent em uninit s = Some (VMM_OK, s') \<and>
           host_actions s' = host_actions s @ [(pirq, ''GIC-CHILD'', unat nr)] \<and>
           host_active_callback s' = host_active_callback s \<and>
           gic_cnt s' = gic_cnt s + 1"
proof -
  define db where "db = (case regmap n 0 of Some a \<Rightarrow> a | None \<Rightarrow> fst uninit)"
  define cb where "cb = (case regmap n 1 of Some a \<Rightarrow> a | None \<Rightarrow> snd uninit)"
  define c2b where "c2b = (case regmap n 4 of Some a \<Rightarrow> a | None \<Rightarrow> cb + 0x1000)"
  define irq where "irq = (case read_u32 n ''irq_start'' of Some v \<Rightarrow> v | None \<Rightarrow> 0)"
  obtain s1 where s1: "gic_init_bases nr em irq cb c2b db s = Some (VMM_OK, s1)"
    and f1: "gic_cnt s1 = gic_cnt s" "host_actions s1 = host_actions s"
      "host_active_callback s1 = host_active_callback s"
      "CONFIG_HOST_IRQ_COUNT s1 = CONFIG_HOST_IRQ_COUNT s"
    using gic_init_bases_result [OF assms(3)] by blast
  have casc: "gic_cascade_irq nr pirq s1 =
      Some (s1\<lparr>host_actions := host_actions s1 @ [(pirq, ''GIC-CHILD'', unat nr)]\<rparr>)"
    using assms(3,5) f1(4) by (intro gic_cascade_irq_result) simp_all
  have "gic_devtree_init (Some n) parent em uninit s =
      Some (VMM_OK, s1\<lparr>host_actions := host_actions s1 @ [(pirq, ''GIC-CHILD'', unat nr)],
                       gic_cnt := gic_cnt s1 + 1\<rparr>)"
    using assms(4) s1 casc f1(1)
    unfolding gic_devtree_init_def Let_def db_def cb_def c2b_def irq_def nr_def pirq_def
    by simp
  then show ?thesis using f1 by simp
qed

lemma gic_devtree_init_primary:
  fixes s :: state and n :: vmm_devtree_node
  defines "nr \<equiv> word_of_int (gic_cnt s) :: u32"
  defines "irq \<equiv> (case read_u32 n ''irq_start'' of Some v \<Rightarrow> v | None \<Rightarrow> 0)"
  assumes "nr < GIC_MAX_NR"
  shows "\<exists>s'. gic_devtree_init (Some n) None em uninit s = Some (VMM_OK, s') \<and>
           irq_offset (gic_data s' (unat nr)) = (irq - 1) AND NOT 31 \<and>
           host_actions s' = host_actions s \<and>
           host_active_callback s' = Some active_callback_gic_active_irq \<and>
           gic_cnt s' = gic_cnt s + 1"
proof -
  define db where "db = (case regmap n 0 of Some a \<Rightarrow> a | None \<Rightarrow> fst uninit)"
  define cb where "cb = (case regmap n 1 of Some a \<Rightarrow> a | None \<Rightarrow> snd uninit)"
  define c2b where "c2b = (case regmap n 4 of Some a \<Rightarrow> a | None \<Rightarrow> cb + 0x1000)"
  obtain s1 where s1: "gic_init_bases nr em irq cb c2b db s = Some (VMM_OK, s1)"
    and f1: "gic_cnt s1 = gic_cnt s" "host_actions s1 = host_actions s"
      "gic_data s1 = (gic_data s)(unat nr := gic_entry em irq cb c2b db s)"
    using gic_init_bases_result [OF assms(3)] by blast
  have "gic_devtree_init (Some n) None em uninit s =
      Some (VMM_OK, s1\<lparr>host_active_callback := Some active_callback_gic_active_irq,
                       gic_cnt := gic_cnt s1 + 1\<rparr>)"
    using s1
    unfolding gic_devtree_init_def Let_def db_def cb_def c2b_def irq_def nr_def
    by (simp add: vmm_host_irq_set_active_callback_def)
  then show ?thesis using f1 by (simp add: gic_entry_def)
qed

section \<open>Word arithmetic of the line offset\<close>

lemma not31: "(NOT 31 :: u32) = NOT (mask 5)" by (simp add: mask_eq_exp_minus_1)

lemma and_not31_shift: "x AND NOT 31 = push_bit 5 (drop_bit 5 x)" for x :: u32
  unfolding not31 by (rule bit_eqI) (auto simp: bit_simps)

lemma unat_and_not31: "unat (x AND NOT 31) = unat x div 32 * 32" for x :: u32
proof -
  have lt: "unat x < 2 ^ 32" using unsigned_less [of x, where ?'a = nat] by simp
  have "unat (drop_bit 5 x) = unat x div 32"
    by (simp add: drop_bit_eq_div unat_div)
  moreover have "unat x div 32 * 32 < 2 ^ 32" using lt by simp
  ultimately have "unat (drop_bit 5 x * 32) = unat x div 32 * 32"
    by (simp add: unat_word_ariths)
  moreover have "x AND NOT 31 = drop_bit 5 x * 32"
    by (subst and_not31_shift) (simp add: push_bit_eq_mult)
  ultimately show ?thesis by (simp only:)
qed

lemma offset_aligned: "unat (x AND NOT 31) mod 32 = 0" for x :: u32
  by (subst unat_and_not31) simp

lemma pred_div32:
  fixes n :: nat
  assumes "0 < n" and "n mod 32 = 0"
  shows "32 \<le> n" and "(n - 1) div 32 * 32 = n - 32"
proof -
  from assms(2) obtain k where k: "n = 32 * k" by (auto simp: mod_eq_0_iff_dvd)
  with assms(1) have "0 < k" by simp
  then obtain j where j: "k = Suc j" by (cases k) auto
  show "32 \<le> n" by (simp add: k j)
  have "n - 1 = 31 + j * 32" by (simp add: k j)
  then have "(n - 1) div 32 = j" by simp
  then show "(n - 1) div 32 * 32 = n - 32" by (simp add: k j)
qed

lemma offset_multiple:
  fixes irq_start :: u32
  assumes "irq_start \<noteq> 0" and "unat irq_start mod 32 = 0"
  shows "(irq_start - 1) AND NOT 31 = irq_start - 32"
    and "unat (irq_start - 32) = unat irq_start - 32"
proof -
  from assms(1) have pos: "0 < unat irq_start" by (simp add: unat_gt_0)
  from pos assms(2) have ge: "32 \<le> unat irq_start" by (rule pred_div32(1))
  then have "(32 :: u32) \<le> irq_start" by (simp add: word_le_nat_alt)
  then show r: "unat (irq_start - 32) = unat irq_start - 32" by (simp add: unat_sub)
  have "unat (irq_start - 1) = unat irq_start - 1" using assms(1) by (rule unat_minus_one)
  then have "unat ((irq_start - 1) AND NOT 31) = (unat irq_start - 1) div 32 * 32"
    by (subst unat_and_not31) simp
  also have "\<dots> = unat irq_start - 32" using pos assms(2) by (rule pred_div32(2))
  finally show "(irq_start - 1) AND NOT 31 = irq_start - 32"
    using r by (simp add: word_unat_eq_iff)
qed

lemma unat_pred: "unat (x - 1) = (unat x + 2 ^ 32 - 1) mod 2 ^ 32" for x :: u32
proof (cases "x = 0")
  case True
  then show ?thesis by (simp add: unsigned_minus_1_eq_mask mask_eq_exp_minus_1)
next
  case False
  then have "0 < unat x" by (simp add: unat_gt_0)
  moreover have "unat x < 2 ^ 32" using unsigned_less [of x, where ?'a = nat] by simp
  ultimately have "(unat x + 2 ^ 32 - 1) mod 2 ^ 32 = unat x - 1"
    by (simp add: mod_if)
  with False show ?thesis by (simp add: unat_minus_one)
qed

section \<open>Trigger type and the enable bits\<close>





lemma conf_range: "c \<le> 252 \<Longrightarrow> 0x200 \<le> 0xc00 + c" for c :: u32
  by (simp add: word_le_nat_alt word_less_nat_alt unat_word_ariths)










section \<open>The claims\<close>

lemma ack_le: "(x :: u32) AND 0x3FF \<le> 1023"
  by (rule word_and_le1)



text \<open>
  C3. The cascade handler reads the child's acknowledge register and keeps its low ten
  bits, \<open>v\<close>. For \<open>v = 1023\<close> it returns \<open>VMM_IRQ_NONE\<close> and changes nothing; for
  \<open>32 \<le> v \<le> 1020\<close> it returns \<open>VMM_IRQ_HANDLED\<close> after exactly one call of the dispatch
  entry point, with \<open>v\<close> plus the child's \<open>irq_offset\<close>; for every other \<open>v\<close> (below 32,
  1021 or 1022) it returns \<open>VMM_IRQ_HANDLED\<close> and changes nothing. These cases cover
  every \<open>v\<close>.
\<close>

theorem gic_handle_cascade_irq_dispatch:
  "(let gic = gic_data s dev;
        v = gic_read (cpu_base gic + GIC_CPU_INTACK) s AND 0x3FF in
     (v = 1023 \<longrightarrow> gic_handle_cascade_irq irq dev s = (VMM_IRQ_NONE, s)) \<and>
     (32 \<le> v \<and> v \<le> 1020 \<longrightarrow>
        fst (gic_handle_cascade_irq irq dev s) = VMM_IRQ_HANDLED \<and>
        snd (gic_handle_cascade_irq irq dev s) = s\<lparr>trace := trace s @ [Irq_exec (v + irq_offset gic)]\<rparr>) \<and>
     (v < 32 \<or> v = 1021 \<or> v = 1022 \<longrightarrow>
        gic_handle_cascade_irq irq dev s = (VMM_IRQ_HANDLED, s)) \<and>
     (v = 1023 \<or> (32 \<le> v \<and> v \<le> 1020) \<or> v < 32 \<or> v = 1021 \<or> v = 1022))"
proof -
  define v where "v = gic_read (cpu_base (gic_data s dev) + GIC_CPU_INTACK) s AND 0x3FF"
  have "v \<le> 1023" unfolding v_def by (rule ack_le)
  then have cover: "v = 1023 \<or> (32 \<le> v \<and> v \<le> 1020) \<or> v < 32 \<or> v = 1021 \<or> v = 1022"
    by (auto simp: word_le_nat_alt word_less_nat_alt word_unat_eq_iff)
  show ?thesis
    unfolding gic_handle_cascade_irq_def Let_def v_def [symmetric]
    using cover by (auto simp: vmm_host_generic_irq_exec_def)
qed

theorem gic_handle_cascade_irq_dispatch_witness:
  "fst (gic_handle_cascade_irq 50 1 (example_state False 64 33)) = VMM_IRQ_HANDLED
   \<and> trace (snd (gic_handle_cascade_irq 50 1 (example_state False 64 33))) = [Irq_exec 97]
   \<and> gic_handle_cascade_irq 50 1 (example_state False 64 1023)
       = (VMM_IRQ_NONE, example_state False 64 1023)
   \<and> gic_handle_cascade_irq 50 1 (example_state False 64 7)
       = (VMM_IRQ_HANDLED, example_state False 64 7)"
  using gic_handle_cascade_irq_dispatch [of "example_state False 64 33" 1 50]
    gic_handle_cascade_irq_dispatch [of "example_state False 64 1023" 1 50]
    gic_handle_cascade_irq_dispatch [of "example_state False 64 7" 1 50]
  by (simp add: example_state_def example_gic_def gic_read_def vmm_readl_def Let_def)

text \<open>
  C4. \<open>gic_active_irq\<close> reads the acknowledge register of the first controller and keeps
  its low ten bits, \<open>v\<close> (at most 1023). For \<open>v\<close> from 1021 on it returns \<open>UINT_MAX\<close>, the
  largest unsigned value; for \<open>v\<close> up to 1020 it returns \<open>v\<close> plus the \<open>irq_offset\<close> of
  the first controller.
\<close>

theorem gic_active_irq_value:
  "(let v = gic_read (cpu_base (gic_data s 0) + GIC_CPU_INTACK) s AND 0x3FF in
     v \<le> 1023 \<and> UINT_MAX = - 1 \<and>
     (1021 \<le> v \<longrightarrow> gic_active_irq n s = UINT_MAX) \<and>
     (v \<le> 1020 \<longrightarrow> gic_active_irq n s = v + irq_offset (gic_data s 0)))"
  unfolding gic_active_irq_def Let_def
  using ack_le [of "gic_read (cpu_base (gic_data s 0) + GIC_CPU_INTACK) s"]
  by (auto simp: word_less_nat_alt word_le_nat_alt)

theorem gic_active_irq_value_witness:
  "gic_read (cpu_base (gic_data (example_state False 32 8) 0) + GIC_CPU_INTACK)
     (example_state False 32 8) AND 0x3FF = 8
   \<and> gic_active_irq 0 (example_state False 32 8) = 40
   \<and> gic_active_irq 0 (example_state False 32 1022) = UINT_MAX"
  using gic_active_irq_value [of "example_state False 32 8" 0]
        gic_active_irq_value [of "example_state False 32 1022" 0]
  by (simp add: example_state_def example_gic_def gic_read_def vmm_readl_def Let_def)

text \<open>
  C6. \<open>gic_eoi_irq\<close> adds to the trace, in split mode, exactly two stores: the local line
  number (\<open>num\<close> minus the controller's \<open>irq_offset\<close>) to the EOI register of the CPU
  interface, then the same number to the deactivate register of the second CPU interface
  bank; otherwise exactly one store, of the local line number to the EOI register.
\<close>

theorem gic_eoi_irq_writes:
  "trace (gic_eoi_irq irq s) =
     (let gic = gic_data s (vmm_host_irq_get_chip_data irq); irq_no = num irq - irq_offset gic in
      if eoimode gic
      then trace s @ [Writel irq_no (cpu_base gic + GIC_CPU_EOI),
                      Writel irq_no (cpu2_base gic + GIC_CPU2_DIR)]
      else trace s @ [Writel irq_no (cpu_base gic + GIC_CPU_EOI)])"
  by (simp add: gic_eoi_irq_def Let_def gic_write_def vmm_writel_def gic_irq_def)

theorem gic_eoi_irq_writes_witness:
  "trace (gic_eoi_irq \<lparr>num = 40, chip_data = 0\<rparr> (example_state False 32 8)) = [Writel 8 0x110]
   \<and> trace (gic_eoi_irq \<lparr>num = 40, chip_data = 0\<rparr> (example_state True 32 8))
       = [Writel 8 0x110, Writel 8 0x2000]"
  using gic_eoi_irq_writes [of "\<lparr>num = 40, chip_data = 0\<rparr>" "example_state False 32 8"]
     gic_eoi_irq_writes [of "\<lparr>num = 40, chip_data = 0\<rparr>" "example_state True 32 8"]
  by (simp add: example_state_def example_gic_def vmm_host_irq_get_chip_data_def Let_def)

text \<open>
  C7. \<open>gic_set_type\<close> on a line whose local number is below 16, \<open>gic_set_type\<close> with a type
  that is neither level-high nor edge-rising, and \<open>gic_set_affinity\<close> with a first target
  core of 8 or more each return \<open>VMM_EINVALID\<close> and leave the state as it was: no store,
  no other event.
\<close>

theorem invalid_argument_no_write:
  "(gic_irq (gic_data s (vmm_host_irq_get_chip_data irq)) irq < 16 \<longrightarrow>
      gic_set_type irq ty s = (VMM_EINVALID, s)) \<and>
   (ty \<noteq> VMM_IRQ_TYPE_LEVEL_HIGH \<and> ty \<noteq> VMM_IRQ_TYPE_EDGE_RISING \<longrightarrow>
      gic_set_type irq ty s = (VMM_EINVALID, s)) \<and>
   (vmm_cpumask_first mask_val \<ge> 8 \<longrightarrow>
      gic_set_affinity irq mask_val force s = (VMM_EINVALID, s))"
  by (simp add: gic_set_type_def gic_set_affinity_def Let_def)

theorem invalid_argument_no_write_witness:
  "gic_set_type \<lparr>num = 40, chip_data = 0\<rparr> VMM_IRQ_TYPE_EDGE_RISING (example_state False 32 8)
     = (VMM_EINVALID, example_state False 32 8) \<and>
   gic_set_type \<lparr>num = 80, chip_data = 0\<rparr> (VMM_IRQ_TYPE_OTHER 8) (example_state False 32 8)
     = (VMM_EINVALID, example_state False 32 8) \<and>
   gic_set_affinity \<lparr>num = 80, chip_data = 0\<rparr> \<lparr>vmm_cpumask_bits = 0x100, vmm_cpumask_first = 8\<rparr>
       False (example_state False 32 8)
     = (VMM_EINVALID, example_state False 32 8)"
  using invalid_argument_no_write [where s = "example_state False 32 8"
          and irq = "\<lparr>num = 40, chip_data = 0\<rparr>" and ty = VMM_IRQ_TYPE_EDGE_RISING
          and mask_val = "\<lparr>vmm_cpumask_bits = 0x100, vmm_cpumask_first = 8\<rparr>" and force = False]
    invalid_argument_no_write [where s = "example_state False 32 8"
          and irq = "\<lparr>num = 80, chip_data = 0\<rparr>" and ty = "VMM_IRQ_TYPE_OTHER 8"
          and mask_val = "\<lparr>vmm_cpumask_bits = 0x100, vmm_cpumask_first = 8\<rparr>" and force = False]
  by (simp add: example_state_def example_gic_def gic_irq_def vmm_host_irq_get_chip_data_def)



text \<open>
  C2. The claim fails in its second half. A first controller created with \<open>irq_start = 33\<close>
  on hardware that reports the largest line count gets \<open>irq_offset = 32\<close> and
  \<open>gic_irqs = 1020\<close>, which add up to more than the capacity of 1024 lines.
\<close>

theorem gic_init_bases_offset_count_counterexample:
  "gic_init_bases 0 False 33 0x100 0x2000 0x1000 (boot_state 31 1024) \<noteq> None \<and>
   irq_offset (gic_data (snd (the
     (gic_init_bases 0 False 33 0x100 0x2000 0x1000 (boot_state 31 1024)))) 0) = 32 \<and>
   gic_irqs (gic_data (snd (the
     (gic_init_bases 0 False 33 0x100 0x2000 0x1000 (boot_state 31 1024)))) 0) = 1020 \<and>
   CONFIG_HOST_IRQ_COUNT (snd (the
     (gic_init_bases 0 False 33 0x100 0x2000 0x1000 (boot_state 31 1024)))) = 1024 \<and>
   \<not> (unat (irq_offset (gic_data (snd (the
          (gic_init_bases 0 False 33 0x100 0x2000 0x1000 (boot_state 31 1024)))) 0))
        + unat (gic_irqs (gic_data (snd (the
          (gic_init_bases 0 False 33 0x100 0x2000 0x1000 (boot_state 31 1024)))) 0))
      \<le> unat (CONFIG_HOST_IRQ_COUNT (snd (the
          (gic_init_bases 0 False 33 0x100 0x2000 0x1000 (boot_state 31 1024))))))"
proof -
  have "(0 :: u32) < GIC_MAX_NR" by simp
  from gic_init_bases_result [OF this, of False 33 "0x100" "0x2000" "0x1000" "boot_state 31 1024"]
  obtain s' where
    r: "gic_init_bases 0 False 33 0x100 0x2000 0x1000 (boot_state 31 1024) = Some (VMM_OK, s')"
    and g: "gic_data s' = (gic_data (boot_state 31 1024))
              (unat (0 :: u32) := gic_entry False 33 0x100 0x2000 0x1000 (boot_state 31 1024))"
    and c: "CONFIG_HOST_IRQ_COUNT s' = CONFIG_HOST_IRQ_COUNT (boot_state 31 1024)"
    by blast
  have "irq_offset (gic_data s' 0) = 32" "gic_irqs (gic_data s' 0) = 1020"
    "CONFIG_HOST_IRQ_COUNT s' = 1024"
    by (simp_all add: g c gic_entry_def gic_max_irq_def gic_read_def vmm_readl_def
        boot_state_def Let_def)
  then show ?thesis by (simp add: r)
qed

text \<open>
  C2, amended. For every controller that \<open>gic_init_bases\<close> creates, from any \<open>irq_start\<close>
  and any hardware line count, the call returns, \<open>irq_offset\<close> is a multiple of 32 and
  \<open>gic_irqs\<close> is at most 1020. The capacity bounds what is registered, not the stored
  count: the host framework's table is unchanged for every line number from
  \<open>CONFIG_HOST_IRQ_COUNT\<close> on.
\<close>

theorem gic_init_bases_invariant:
  assumes "gic_nr < GIC_MAX_NR"
  shows "\<exists>s'. gic_init_bases gic_nr em irq_start cb c2b db s = Some (VMM_OK, s') \<and>
     unat (irq_offset (gic_data s' (unat gic_nr))) mod 32 = 0 \<and>
     gic_irqs (gic_data s' (unat gic_nr)) \<le> 1020 \<and>
     (\<forall>i. CONFIG_HOST_IRQ_COUNT s \<le> i \<longrightarrow>
        host_chip s' i = host_chip s i \<and> host_chip_data s' i = host_chip_data s i \<and>
        host_handler s' i = host_handler s i \<and> host_per_cpu s' i = host_per_cpu s i)"
proof -
  obtain s' where s': "gic_init_bases gic_nr em irq_start cb c2b db s = Some (VMM_OK, s')"
    and g: "gic_data s' = (gic_data s)(unat gic_nr := gic_entry em irq_start cb c2b db s)"
    and l: "\<forall>i. CONFIG_HOST_IRQ_COUNT s \<le> i \<longrightarrow> same_line i s s'"
    using gic_init_bases_result [OF assms] by blast
  have "irq_offset (gic_data s' (unat gic_nr)) = (irq_start - 1) AND NOT 31"
    by (simp add: g gic_entry_def)
  then have "unat (irq_offset (gic_data s' (unat gic_nr))) mod 32 = 0"
    by (simp only: offset_aligned)
  moreover have "gic_irqs (gic_data s' (unat gic_nr)) \<le> 1020"
    by (simp add: g gic_entry_def gic_max_irq_le)
  ultimately show ?thesis using s' l by (auto simp: same_line_def)
qed

theorem gic_init_bases_invariant_witness:
  "(0 :: u32) < GIC_MAX_NR \<and>
   CONFIG_HOST_IRQ_COUNT (boot_state 31 1024) \<le> 1030 \<and>
   (\<exists>s'. gic_init_bases 0 False 33 0x100 0x2000 0x1000 (boot_state 31 1024) = Some (VMM_OK, s') \<and>
      unat (irq_offset (gic_data s' 0)) mod 32 = 0 \<and> gic_irqs (gic_data s' 0) \<le> 1020 \<and>
      host_chip_data s' 1030 = None)"
proof -
  have h: "(0 :: u32) < GIC_MAX_NR" by simp
  have c: "CONFIG_HOST_IRQ_COUNT (boot_state 31 1024) \<le> 1030"
    by (simp add: boot_state_def)
  have n: "host_chip_data (boot_state 31 1024) 1030 = None" by (simp add: boot_state_def)
  show ?thesis
    using h c n
      gic_init_bases_invariant [OF h, of False 33 "0x100" "0x2000" "0x1000" "boot_state 31 1024"]
    by auto
qed



text \<open>
  C8. The claim fails: when a second controller is bootstrapped with a parent and a node
  without \<open>parent_irq\<close>, the cascade handler is registered for line 1020, and nothing is
  registered for line 1023.
\<close>

theorem gic_devtree_init_parent_irq_counterexample:
  "read_u32 (example_node (Some 33)) ''parent_irq'' = None \<and>
   gic_devtree_init (Some (example_node (Some 33))) (Some (example_node (Some 1))) False (0, 0)
       (example_state False 0 0) \<noteq> None \<and>
   host_actions (snd (the (gic_devtree_init (Some (example_node (Some 33)))
       (Some (example_node (Some 1))) False (0, 0) (example_state False 0 0))))
     = [(1020, ''GIC-CHILD'', 1)] \<and>
   (1023, ''GIC-CHILD'', 1) \<notin> set (host_actions (snd (the (gic_devtree_init
       (Some (example_node (Some 33))) (Some (example_node (Some 1))) False (0, 0)
       (example_state False 0 0)))))"
proof -
  have nr: "(word_of_int (gic_cnt (example_state False 0 0)) :: u32) < GIC_MAX_NR"
    by (simp add: example_state_def)
  have p: "Some (example_node (Some 1)) \<noteq> None" by simp
  have q: "(case read_u32 (example_node (Some 33)) ''parent_irq'' of Some v \<Rightarrow> v | None \<Rightarrow> 1020)
      < CONFIG_HOST_IRQ_COUNT (example_state False 0 0)"
    by (simp add: example_node_def example_state_def)
  from gic_devtree_init_cascade [OF nr p q, of False "(0, 0)"]
  obtain s' where "gic_devtree_init (Some (example_node (Some 33)))
      (Some (example_node (Some 1))) False (0, 0) (example_state False 0 0) = Some (VMM_OK, s')"
    and "host_actions s' = [(1020, ''GIC-CHILD'', 1)]"
    by (auto simp: example_node_def example_state_def)
  then show ?thesis by (simp add: example_node_def)
qed

text \<open>
  C8, amended. When \<open>gic_devtree_init\<close> runs with a parent and the node gives no
  \<open>parent_irq\<close>, the controller is registered through \<open>gic_cascade_irq\<close> against line
  number 1020, the first number past the 1020 lines a controller can have: provided the
  table has a free entry and the host framework accepts line 1020, the call returns
  \<open>VMM_OK\<close> and has added exactly the handler \<open>GIC-CHILD\<close> of line 1020 for this
  controller.
\<close>

theorem gic_devtree_init_parent_irq_default:
  assumes "parent \<noteq> None" and "read_u32 n ''parent_irq'' = None"
    and "(word_of_int (gic_cnt s) :: u32) < GIC_MAX_NR"
    and "1020 < CONFIG_HOST_IRQ_COUNT s"
  shows "\<exists>s'. gic_devtree_init (Some n) parent em uninit s = Some (VMM_OK, s') \<and>
     host_actions s' =
       host_actions s @ [(1020, ''GIC-CHILD'', unat (word_of_int (gic_cnt s) :: u32))]"
  using gic_devtree_init_cascade [OF assms(3) assms(1), of n em uninit] assms(2,4)
  by auto

theorem gic_devtree_init_parent_irq_default_witness:
  "Some (example_node (Some 1)) \<noteq> None \<and>
   read_u32 (example_node (Some 33)) ''parent_irq'' = None \<and>
   (word_of_int (gic_cnt (example_state False 0 0)) :: u32) < GIC_MAX_NR \<and>
   1020 < CONFIG_HOST_IRQ_COUNT (example_state False 0 0) \<and>
   (\<exists>s'. gic_devtree_init (Some (example_node (Some 33))) (Some (example_node (Some 1)))
            False (0, 0) (example_state False 0 0) = Some (VMM_OK, s') \<and>
      host_actions s' = [(1020, ''GIC-CHILD'', 1)])"
proof -
  have a: "Some (example_node (Some 1)) \<noteq> None" by simp
  have b: "read_u32 (example_node (Some 33)) ''parent_irq'' = None"
    by (simp add: example_node_def)
  have c: "(word_of_int (gic_cnt (example_state False 0 0)) :: u32) < GIC_MAX_NR"
    by (simp add: example_state_def)
  have d: "1020 < CONFIG_HOST_IRQ_COUNT (example_state False 0 0)" by (simp add: example_state_def)
  from gic_devtree_init_parent_irq_default [OF a b c d, of False "(0, 0)"]
  have "\<exists>s'. gic_devtree_init (Some (example_node (Some 33))) (Some (example_node (Some 1)))
            False (0, 0) (example_state False 0 0) = Some (VMM_OK, s') \<and>
      host_actions s' = [(1020, ''GIC-CHILD'', 1)]"
    by (simp add: example_state_def)
  with a b c d show ?thesis by blast
qed

text \<open>
  C10. \<open>gic_init_bases\<close> (for a controller number below \<open>GIC_MAX_NR\<close>, where it returns)
  stores as \<open>irq_offset\<close> the value \<open>(irq_start - 1) & ~31\<close> of 32-bit unsigned arithmetic,
  that is \<open>((irq_start - 1) mod 2^32)\<close> rounded down to a multiple of 32. For
  \<open>irq_start = 0\<close> this is \<open>2^32 - 32\<close>; for a positive multiple of 32 it is
  \<open>irq_start - 32\<close>.
\<close>

theorem gic_init_bases_irq_offset:
  assumes "gic_nr < GIC_MAX_NR"
  shows "\<exists>s'. gic_init_bases gic_nr em irq_start cb c2b db s = Some (VMM_OK, s') \<and>
     irq_offset (gic_data s' (unat gic_nr)) = (irq_start - 1) AND NOT 31 \<and>
     unat (irq_offset (gic_data s' (unat gic_nr)))
       = (unat irq_start + 2 ^ 32 - 1) mod 2 ^ 32 div 32 * 32 \<and>
     (irq_start = 0 \<longrightarrow> unat (irq_offset (gic_data s' (unat gic_nr))) = 2 ^ 32 - 32) \<and>
     (irq_start \<noteq> 0 \<and> unat irq_start mod 32 = 0 \<longrightarrow>
        irq_offset (gic_data s' (unat gic_nr)) = irq_start - 32 \<and>
        unat (irq_offset (gic_data s' (unat gic_nr))) = unat irq_start - 32)"
proof -
  obtain s' where s': "gic_init_bases gic_nr em irq_start cb c2b db s = Some (VMM_OK, s')"
    and g: "gic_data s' = (gic_data s)(unat gic_nr := gic_entry em irq_start cb c2b db s)"
    using gic_init_bases_result [OF assms] by blast
  have off: "irq_offset (gic_data s' (unat gic_nr)) = (irq_start - 1) AND NOT 31"
    by (simp add: g gic_entry_def)
  have u: "unat ((irq_start - 1) AND NOT 31) = (unat irq_start + 2 ^ 32 - 1) mod 2 ^ 32 div 32 * 32"
    by (subst unat_and_not31) (simp only: unat_pred)
  have z: "irq_start = 0 \<longrightarrow> unat ((irq_start - 1) AND NOT 31) = 2 ^ 32 - 32"
    by simp
  have m: "irq_start \<noteq> 0 \<and> unat irq_start mod 32 = 0 \<longrightarrow>
      (irq_start - 1) AND NOT 31 = irq_start - 32 \<and>
      unat ((irq_start - 1) AND NOT 31) = unat irq_start - 32"
  proof (intro impI, elim conjE)
    assume nz: "irq_start \<noteq> 0" and al: "unat irq_start mod 32 = 0"
    then have e: "(irq_start - 1) AND NOT 31 = irq_start - 32" by (rule offset_multiple(1))
    from nz al have "unat (irq_start - 32) = unat irq_start - 32" by (rule offset_multiple(2))
    with e show "(irq_start - 1) AND NOT 31 = irq_start - 32 \<and>
      unat ((irq_start - 1) AND NOT 31) = unat irq_start - 32" by (simp only:)
  qed
  show ?thesis using s' u z m unfolding off [symmetric] by blast
qed

theorem gic_init_bases_irq_offset_witness:
  "(0 :: u32) < GIC_MAX_NR \<and>
   (\<exists>s'. gic_init_bases 0 False 0 0x100 0x2000 0x1000 (boot_state 0 1024) = Some (VMM_OK, s') \<and>
      irq_offset (gic_data s' 0) = 0xFFFFFFE0) \<and>
   (\<exists>s'. gic_init_bases 0 False 64 0x100 0x2000 0x1000 (boot_state 0 1024) = Some (VMM_OK, s') \<and>
      irq_offset (gic_data s' 0) = 32)"
proof -
  have h: "(0 :: u32) < GIC_MAX_NR" by simp
  show ?thesis
    using h gic_init_bases_irq_offset [OF h, of False 0 "0x100" "0x2000" "0x1000" "boot_state 0 1024"]
      gic_init_bases_irq_offset [OF h, of False 64 "0x100" "0x2000" "0x1000" "boot_state 0 1024"]
    by auto
qed

end
